theory Spec2Isabelle
  imports Complex_Main "HOL-Library.Sublist"
begin

section \<open>Python strings\<close>

text \<open>
  A Python \<open>str\<close> is a sequence of Unicode code points, so it is modelled as a list of
  natural numbers, one per code point (Han characters and the ideographic space are single
  elements, as they are for \<open>len\<close>, \<open>strip\<close> and \<open>split\<close>). \<open>ustr\<close> turns an
  ASCII literal into such a list.
\<close>

type_synonym pystr = "nat list"

definition ustr :: "string \<Rightarrow> pystr" where
  "ustr s = map of_char s"

text \<open>
  \<open>str.isspace\<close> per character, as CPython defines it (bidirectional class WS, B or S, or
  category Zs): the table \<open>str.strip()\<close> without argument uses.
\<close>

definition isspace_cp :: "nat \<Rightarrow> bool" where
  "isspace_cp c =
     ((0x09 \<le> c \<and> c \<le> 0x0D) \<or> (0x1C \<le> c \<and> c \<le> 0x20) \<or> c = 0x85 \<or> c = 0xA0 \<or>
      c = 0x1680 \<or> (0x2000 \<le> c \<and> c \<le> 0x200A) \<or> c = 0x2028 \<or> c = 0x2029 \<or>
      c = 0x202F \<or> c = 0x205F \<or> c = 0x3000)"

definition strip :: "pystr \<Rightarrow> pystr" where
  "strip s = rev (dropWhile isspace_cp (rev (dropWhile isspace_cp s)))"

text \<open>
  The zero digits of the scripts with decimal digits (general category Nd, Unicode 14.0, the
  database of CPython 3.11): each is followed by its digits one to nine. \<open>str.isdecimal\<close>
  holds of exactly these characters, and \<open>int\<close> reads them with their digit value.
\<close>

definition decimal_zeros :: "nat list" where
  "decimal_zeros =
     [0x30, 0x660, 0x6F0, 0x7C0, 0x966, 0x9E6, 0xA66, 0xAE6, 0xB66, 0xBE6, 0xC66, 0xCE6,
      0xD66, 0xDE6, 0xE50, 0xED0, 0xF20, 0x1040, 0x1090, 0x17E0, 0x1810, 0x1946, 0x19D0,
      0x1A80, 0x1A90, 0x1B50, 0x1BB0, 0x1C40, 0x1C50, 0xA620, 0xA8D0, 0xA900, 0xA9D0,
      0xA9F0, 0xAA50, 0xABF0, 0xFF10, 0x104A0, 0x10D30, 0x11066, 0x110F0, 0x11136,
      0x111D0, 0x112F0, 0x11450, 0x114D0, 0x11650, 0x116C0, 0x11730, 0x118E0, 0x11950,
      0x11C50, 0x11D50, 0x11DA0, 0x16A60, 0x16AC0, 0x16B50, 0x1D7CE, 0x1D7D8, 0x1D7E2,
      0x1D7EC, 0x1D7F6, 0x1E140, 0x1E2F0, 0x1E950, 0x1FBF0]"

definition decimal_value :: "nat \<Rightarrow> nat option" where
  "decimal_value c =
     (case find (\<lambda>z. z \<le> c \<and> c < z + 10) decimal_zeros of
        None \<Rightarrow> None
      | Some z \<Rightarrow> Some (c - z))"

text \<open>
  The characters of numeric type Digit that are not decimal (superscripts, circled and
  parenthesised digits and the like), as inclusive ranges: \<open>str.isdigit\<close> accepts them,
  \<open>int\<close> does not.
\<close>

definition digit_only_ranges :: "(nat \<times> nat) list" where
  "digit_only_ranges =
     [(0xB2, 0xB3), (0xB9, 0xB9), (0x1369, 0x1371), (0x19DA, 0x19DA), (0x2070, 0x2070),
      (0x2074, 0x2079), (0x2080, 0x2089), (0x2460, 0x2468), (0x2474, 0x247C),
      (0x2488, 0x2490), (0x24EA, 0x24EA), (0x24F5, 0x24FD), (0x24FF, 0x24FF),
      (0x2776, 0x277E), (0x2780, 0x2788), (0x278A, 0x2792), (0x10A40, 0x10A43),
      (0x10E60, 0x10E68), (0x11052, 0x1105A), (0x1F100, 0x1F10A)]"

definition isdigit_cp :: "nat \<Rightarrow> bool" where
  "isdigit_cp c =
     (decimal_value c \<noteq> None \<or> list_ex (\<lambda>(lo, hi). lo \<le> c \<and> c \<le> hi) digit_only_ranges)"

definition isdigit :: "pystr \<Rightarrow> bool" where
  "isdigit s = (s \<noteq> [] \<and> list_all isdigit_cp s)"

section \<open>Integers as text\<close>

text \<open>
  \<open>str(n)\<close> for an integer: its decimal digits, after a minus sign when it is negative.
  Python's integers are unbounded, hence \<open>int\<close>. The optional limit of CPython 3.11 and
  later on the length of a converted integer (4300 digits unless reconfigured) is not part
  of the model.
\<close>

fun digits_of :: "nat \<Rightarrow> pystr" where
  "digits_of n = (if n < 10 then [48 + n] else digits_of (n div 10) @ [48 + n mod 10])"

declare digits_of.simps [simp del]

definition str_int :: "int \<Rightarrow> pystr" where
  "str_int i = (if i < 0 then 45 # digits_of (nat (- i)) else digits_of (nat i))"

text \<open>
  \<open>str.zfill(width)\<close>: a string at least \<open>width\<close> long (or any string, for a width that
  is zero or negative) comes back unchanged; otherwise zeros are added on the left, after
  a leading sign if there is one.
\<close>

definition zfill :: "pystr \<Rightarrow> int \<Rightarrow> pystr" where
  "zfill s width =
     (if width \<le> int (length s) then s
      else let fill = replicate (nat (width - int (length s))) 48
           in case s of
                [] \<Rightarrow> fill
              | c # rest \<Rightarrow> if c = 43 \<or> c = 45 then c # fill @ rest else fill @ s)"

section \<open>The composite identifier\<close>

text \<open>\<open>build_id\<close> of \<open>convert_excel.py\<close>.\<close>

definition build_id :: "pystr \<Rightarrow> int \<Rightarrow> int \<Rightarrow> int \<Rightarrow> int \<Rightarrow> int \<Rightarrow> int \<Rightarrow> pystr" where
  "build_id book_code volume page column_idx volume_pad page_pad column_pad =
     (let volume_part = zfill (str_int volume) volume_pad;
          page_part = zfill (str_int page) page_pad;
          column_part = zfill (str_int column_idx) column_pad
      in book_code @ ustr ''.'' @ volume_part @ ustr ''.'' @ page_part @ ustr ''.'' @ column_part)"

text \<open>
  The specification's wording of a zero-padded component, for comparison with what
  \<open>build_id\<close> computes: the decimal rendering of the number with as many zeros in front of
  its digits as the width still leaves room for, and none when the rendering already fills
  it. A negative number keeps its sign in front of the zeros.
\<close>

definition zero_padded :: "int \<Rightarrow> int \<Rightarrow> pystr" where
  "zero_padded width n =
     (if 0 \<le> n then replicate (nat width - length (str_int n)) 48 @ str_int n
      else 45 # replicate (nat width - length (str_int n)) 48 @ str_int (- n))"

section \<open>Inferring book code and volume\<close>

text \<open>
  \<open>s.split(sep)\<close> for a one-character separator (never an empty list) and
  \<open>sep.join(parts)\<close>.
\<close>

fun split_on :: "nat \<Rightarrow> pystr \<Rightarrow> pystr list" where
  "split_on sep [] = [[]]"
| "split_on sep (c # cs) =
     (if c = sep then [] # split_on sep cs
      else case split_on sep cs of
             [] \<Rightarrow> [[c]]
           | p # ps \<Rightarrow> (c # p) # ps)"

fun join :: "pystr \<Rightarrow> pystr list \<Rightarrow> pystr" where
  "join sep [] = []"
| "join sep [p] = p"
| "join sep (p # q # ps) = p @ sep @ join sep (q # ps)"

datatype error = ValueError | TypeError | KeyError | IndexError | AttributeError | OSError

text \<open>
  \<open>int(s)\<close> for a string that \<open>isdigit\<close> has accepted, the only strings the program
  converts (no sign, blank or underscore can occur in them): the number its decimal digits
  denote, and a \<open>ValueError\<close> when one of its characters has no decimal value.
\<close>

fun digits_value :: "nat \<Rightarrow> pystr \<Rightarrow> nat option" where
  "digits_value acc [] = Some acc"
| "digits_value acc (c # cs) =
     (case decimal_value c of
        None \<Rightarrow> None
      | Some d \<Rightarrow> digits_value (10 * acc + d) cs)"

definition py_int :: "pystr \<Rightarrow> error + int" where
  "py_int s =
     (if s = [] then Inl ValueError
      else case digits_value 0 s of
             None \<Rightarrow> Inl ValueError
           | Some n \<Rightarrow> Inr (int n))"

text \<open>
  Lines 127 to 134 of \<open>infer_book_and_volume\<close>: what it does with the candidate stem.
  \<open>parts\<close> is never empty, so \<open>parts[-1]\<close> is \<open>last parts\<close> and \<open>parts[:-1]\<close> is
  \<open>butlast parts\<close>; \<open>x or y\<close> on strings is \<open>y\<close> when \<open>x\<close> is empty.
\<close>

definition infer_from_stem :: "pystr \<Rightarrow> error + (pystr \<times> int)" where
  "infer_from_stem candidate_stem =
     (let parts = split_on 0x5F candidate_stem
      in if parts \<noteq> [] \<and> isdigit (last parts) then
           case py_int (last parts) of
             Inl err \<Rightarrow> Inl err
           | Inr volume \<Rightarrow>
               let joined = join (ustr ''_'') (butlast parts)
               in Inr (if joined \<noteq> [] then joined else candidate_stem, volume)
         else Inr (candidate_stem, 1))"

section \<open>JSON values\<close>

text \<open>
  What \<open>json.loads\<close> returns: \<open>None\<close>, a \<open>bool\<close>, an \<open>int\<close>, a \<open>float\<close>, a
  \<open>str\<close>, a \<open>list\<close> or a \<open>dict\<close> with string keys (kept in insertion order, each key
  once). The program observes two things of a float, whether it is zero (its truth value)
  and the text \<open>json.dumps\<close> writes for it; a float is kept as that pair.
\<close>

datatype pyfloat = PyFloat (float_is_zero: bool) (float_repr: pystr)

datatype json =
    JNull
  | JBool bool
  | JInt int
  | JFloat pyfloat
  | JStr pystr
  | JArr "json list"
  | JObj "(pystr \<times> json) list"

type_synonym json_obj = "(pystr \<times> json) list"

text \<open>\<open>d.get(key, default)\<close>.\<close>

definition dict_get :: "json_obj \<Rightarrow> pystr \<Rightarrow> json \<Rightarrow> json" where
  "dict_get d key dflt = (case map_of d key of None \<Rightarrow> dflt | Some v \<Rightarrow> v)"

text \<open>The truth value of a value, as \<open>if box\<close> and \<open>x or y\<close> take it.\<close>

fun truthy :: "json \<Rightarrow> bool" where
  "truthy JNull = False"
| "truthy (JBool b) = b"
| "truthy (JInt i) = (i \<noteq> 0)"
| "truthy (JFloat f) = (\<not> float_is_zero f)"
| "truthy (JStr s) = (s \<noteq> [])"
| "truthy (JArr xs) = (xs \<noteq> [])"
| "truthy (JObj kvs) = (kvs \<noteq> [])"

text \<open>
  Iteration, \<open>len\<close> and indexing with a non-negative integer, over any value: a
  string yields its characters, a dict its keys (and has no integer key, all its keys being
  strings), and a value of another type raises \<open>TypeError\<close>.
\<close>

fun py_iter :: "json \<Rightarrow> error + json list" where
  "py_iter (JArr xs) = Inr xs"
| "py_iter (JStr s) = Inr (map (\<lambda>c. JStr [c]) s)"
| "py_iter (JObj kvs) = Inr (map (\<lambda>kv. JStr (fst kv)) kvs)"
| "py_iter _ = Inl TypeError"

fun py_len :: "json \<Rightarrow> error + nat" where
  "py_len (JArr xs) = Inr (length xs)"
| "py_len (JStr s) = Inr (length s)"
| "py_len (JObj kvs) = Inr (length kvs)"
| "py_len _ = Inl TypeError"

fun py_getitem :: "json \<Rightarrow> nat \<Rightarrow> error + json" where
  "py_getitem (JArr xs) i = (if i < length xs then Inr (xs ! i) else Inl IndexError)"
| "py_getitem (JStr s) i = (if i < length s then Inr (JStr [s ! i]) else Inl IndexError)"
| "py_getitem (JObj kvs) i = Inl KeyError"
| "py_getitem _ i = Inl TypeError"

text \<open>
  \<open>json.dumps(value, ensure_ascii=False)\<close>: the separators are a comma and a colon, each
  followed by a blank; in a string the quote, the backslash and the control characters
  below U+0020 are escaped and every other character is written as it is.
\<close>

definition hex_digit :: "nat \<Rightarrow> nat" where
  "hex_digit d = (if d < 10 then 48 + d else 87 + d)"

definition escape_cp :: "nat \<Rightarrow> pystr" where
  "escape_cp c =
     (if c = 0x22 then [0x5C, 0x22]
      else if c = 0x5C then [0x5C, 0x5C]
      else if c = 0x08 then [0x5C, 0x62]
      else if c = 0x0C then [0x5C, 0x66]
      else if c = 0x0A then [0x5C, 0x6E]
      else if c = 0x0D then [0x5C, 0x72]
      else if c = 0x09 then [0x5C, 0x74]
      else if c < 0x20 then [0x5C, 0x75, 0x30, 0x30, hex_digit (c div 16), hex_digit (c mod 16)]
      else [c])"

definition quote :: "pystr \<Rightarrow> pystr" where
  "quote s = [0x22] @ concat (map escape_cp s) @ [0x22]"

fun dumps :: "json \<Rightarrow> pystr" where
  "dumps JNull = ustr ''null''"
| "dumps (JBool b) = (if b then ustr ''true'' else ustr ''false'')"
| "dumps (JInt i) = str_int i"
| "dumps (JFloat f) = float_repr f"
| "dumps (JStr s) = quote s"
| "dumps (JArr xs) = ustr ''['' @ join (ustr '', '') (map dumps xs) @ ustr '']''"
| "dumps (JObj kvs) =
     ustr ''{'' @ join (ustr '', '') (map (\<lambda>kv. quote (fst kv) @ ustr '': '' @ dumps (snd kv)) kvs)
       @ ustr ''}''"

section \<open>Building the rows\<close>

text \<open>
  The second half of \<open>infer_book_and_volume\<close> is \<open>infer_from_stem\<close>; its first two lines
  choose the candidate path and take its stem. \<open>Path(...).stem\<close> belongs to \<open>pathlib\<close>
  and depends on the platform's path syntax, so it is the parameter \<open>stem\<close>; \<open>Path\<close> of a
  value that is not a string raises \<open>TypeError\<close>. \<open>json_path\<close> is the path of the JSON
  file as text.
\<close>

definition infer_book_and_volume ::
  "(pystr \<Rightarrow> pystr) \<Rightarrow> json_obj \<Rightarrow> pystr \<Rightarrow> error + (pystr \<times> int)" where
  "infer_book_and_volume stem json_data json_path =
     (let input_path = dict_get json_data (ustr ''input_path'') JNull;
          candidate_path = (if truthy input_path then input_path else JStr (stem json_path))
      in case candidate_path of
           JStr p \<Rightarrow> infer_from_stem (stem p)
         | _ \<Rightarrow> Inl TypeError)"

text \<open>One output row: the dict with the keys ID, Image_name, Han Char and Image Box.\<close>

record row =
  ID :: pystr
  Image_name :: pystr
  Han_Char :: pystr
  Image_Box :: pystr

text \<open>
  The body of the loop of \<open>load_rows\<close> for the entry \<open>text\<close> at the 1-based position
  \<open>idx\<close> (at least 1): \<open>None\<close> is \<open>continue\<close>. The length of \<open>rec_polys\<close> is taken
  before it is indexed, and only for an entry that is kept.
\<close>

definition load_row ::
  "json \<Rightarrow> pystr \<Rightarrow> int \<Rightarrow> int \<Rightarrow> bool \<Rightarrow> int \<Rightarrow> int \<Rightarrow> int \<Rightarrow> pystr \<Rightarrow> nat \<Rightarrow> json
     \<Rightarrow> error + row option" where
  "load_row rec_polys book_code volume page include_empty volume_pad page_pad column_pad
       image_name idx text =
     (let cleaned = (case text of JStr s \<Rightarrow> strip s | _ \<Rightarrow> [])
      in if cleaned = [] \<and> \<not> include_empty then Inr None
         else case py_len rec_polys of
                Inl err \<Rightarrow> Inl err
              | Inr n \<Rightarrow>
                  (case (if idx - 1 < n then py_getitem rec_polys (idx - 1) else Inr JNull) of
                     Inl err \<Rightarrow> Inl err
                   | Inr box \<Rightarrow>
                       Inr (Some \<lparr>ID = build_id book_code volume page (int idx)
                                          volume_pad page_pad column_pad,
                                   Image_name = image_name,
                                   Han_Char = cleaned,
                                   Image_Box = (if truthy box then dumps box else [])\<rparr>)))"

text \<open>
  The loop \<open>for idx, text in enumerate(rec_texts, start=1)\<close>, with \<open>rows\<close> the list
  appended to; an exception in the body ends it.
\<close>

fun load_rows_loop ::
  "(nat \<Rightarrow> json \<Rightarrow> error + row option) \<Rightarrow> nat \<Rightarrow> json list \<Rightarrow> row list \<Rightarrow> error + row list" where
  "load_rows_loop body idx [] rows = Inr rows"
| "load_rows_loop body idx (text # rest) rows =
     (case body idx text of
        Inl err \<Rightarrow> Inl err
      | Inr None \<Rightarrow> load_rows_loop body (Suc idx) rest rows
      | Inr (Some r) \<Rightarrow> load_rows_loop body (Suc idx) rest (rows @ [r]))"

definition load_rows ::
  "json_obj \<Rightarrow> pystr \<Rightarrow> int \<Rightarrow> int \<Rightarrow> bool \<Rightarrow> int \<Rightarrow> int \<Rightarrow> int \<Rightarrow> error + row list" where
  "load_rows json_data book_code volume page include_empty volume_pad page_pad column_pad =
     (let rec_texts = dict_get json_data (ustr ''rec_texts'') (JArr []);
          rec_polys = dict_get json_data (ustr ''rec_polys'') (JArr []);
          image_name = book_code @ ustr ''_page_'' @ zfill (str_int page) page_pad @ ustr ''.png''
      in case py_iter rec_texts of
           Inl err \<Rightarrow> Inl err
         | Inr texts \<Rightarrow>
             load_rows_loop
               (load_row rec_polys book_code volume page include_empty volume_pad page_pad
                  column_pad image_name)
               1 texts [])"

section \<open>The entry point of the record builder\<close>

text \<open>
  The namespace \<open>parse_args\<close> returns (an option left out on the command line is \<open>None\<close>
  where it has no default), and what \<open>main\<close> reads of its surroundings: the line typed at
  the prompt (\<open>None\<close> when standard input is at its end), which paths exist, the text of a
  file, and the library functions it calls (\<open>json.loads\<close>, the stem, the parent and the
  join of \<open>pathlib\<close>, the text \<open>csv.DictWriter\<close> produces for a header and rows, and
  whether \<open>import pandas\<close> fails, with the message of the failure).
\<close>

record args =
  arg_json_path :: "pystr option"
  arg_book_code_arg :: "pystr option"
  arg_book_code :: "pystr option"
  arg_base_book_code :: pystr
  arg_volume :: "int option"
  arg_page :: int
  arg_output_dir :: pystr
  arg_include_empty :: bool
  arg_write_excel :: bool
  arg_volume_pad :: int
  arg_page_pad :: int
  arg_column_pad :: int

record env =
  stdin_line :: "pystr option"
  path_exists :: "pystr \<Rightarrow> bool"
  read_text :: "pystr \<Rightarrow> error + pystr"
  json_loads :: "pystr \<Rightarrow> error + json"
  path_stem :: "pystr \<Rightarrow> pystr"
  path_parent :: "pystr \<Rightarrow> pystr"
  path_join :: "pystr \<Rightarrow> pystr \<Rightarrow> pystr"
  csv_text :: "pystr list \<Rightarrow> row list \<Rightarrow> pystr"
  pandas_import_error :: "pystr option"

text \<open>
  What a run does, in order: a prompt on standard input, a file read, a directory made, a
  file written (the CSV with its text, to be encoded as UTF-8 with a byte order mark; the
  spreadsheet with its columns and rows), a line printed. A run ends by returning, by
  \<open>sys.exit\<close> with a message, or by an exception nobody catches.
\<close>

datatype effect =
    Input pystr
  | ReadText pystr
  | Mkdir pystr
  | WriteCsv pystr pystr
  | WriteExcel pystr "pystr list" "row list"
  | Stdout pystr
  | Stderr pystr

datatype outcome = Returned | SysExit pystr | Raised error

definition ensure_json_path :: "env \<Rightarrow> args \<Rightarrow> effect list \<times> (outcome + pystr)" where
  "ensure_json_path e a =
     (case arg_json_path a of
        Some p \<Rightarrow> ([], Inr p)
      | None \<Rightarrow>
          (let prompt = ustr ''Enter path to OCR JSON (e.g. output/giam_cuong_7_res.json): '';
               user_input = (case stdin_line e of None \<Rightarrow> [] | Some l \<Rightarrow> strip l)
           in if user_input = [] then
                ([Input prompt], Inl (SysExit (ustr ''JSON path is required to proceed.'')))
              else ([Input prompt], Inr user_input)))"

definition columns :: "pystr list" where
  "columns = [ustr ''ID'', ustr ''Image_name'', ustr ''Han Char'', ustr ''Image Box'']"

definition write_csv :: "env \<Rightarrow> row list \<Rightarrow> pystr list \<Rightarrow> pystr \<Rightarrow> effect list" where
  "write_csv e rows cols output_path =
     [Mkdir (path_parent e output_path), WriteCsv output_path (csv_text e cols rows)]"

definition write_excel :: "env \<Rightarrow> row list \<Rightarrow> pystr list \<Rightarrow> pystr \<Rightarrow> effect list" where
  "write_excel e rows cols output_path =
     (case pandas_import_error e of
        Some exc \<Rightarrow>
          [Stderr (ustr ''[WARN] pandas is required to write Excel files ('' @ exc
                     @ ustr ''). Skipping .xlsx export.'')]
      | None \<Rightarrow> [Mkdir (path_parent e output_path), WriteExcel output_path cols rows])"

text \<open>\<open>x or y\<close> for an optional string \<open>x\<close>: \<open>None\<close> and the empty string are false.\<close>

definition or_else :: "pystr option \<Rightarrow> pystr \<Rightarrow> pystr" where
  "or_else x y = (case x of None \<Rightarrow> y | Some s \<Rightarrow> if s \<noteq> [] then s else y)"

text \<open>
  \<open>main\<close>, after \<open>parse_args\<close>. A value \<open>json.loads\<close> returns that is not a dict has no
  \<open>get\<close>, which is an \<open>AttributeError\<close> in \<open>infer_book_and_volume\<close>.
\<close>

definition main :: "env \<Rightarrow> args \<Rightarrow> effect list \<times> outcome" where
  "main e a =
     (case ensure_json_path e a of
        (fx, Inl out) \<Rightarrow> (fx, out)
      | (fx, Inr json_path) \<Rightarrow>
          if \<not> path_exists e json_path then
            (fx, SysExit (ustr ''Input JSON not found: '' @ json_path))
          else
            (case read_text e json_path of
               Inl err \<Rightarrow> (fx @ [ReadText json_path], Raised err)
             | Inr text \<Rightarrow>
                 (case json_loads e text of
                    Inl err \<Rightarrow> (fx @ [ReadText json_path], Raised err)
                  | Inr (JObj json_data) \<Rightarrow>
                      (case infer_book_and_volume (path_stem e) json_data json_path of
                         Inl err \<Rightarrow> (fx @ [ReadText json_path], Raised err)
                       | Inr (inferred_book, inferred_volume) \<Rightarrow>
                           (let book_code =
                                  or_else (arg_book_code a)
                                    (or_else (arg_book_code_arg a)
                                       (or_else (Some inferred_book) (arg_base_book_code a)));
                                volume = (case arg_volume a of
                                            Some v \<Rightarrow> v
                                          | None \<Rightarrow> inferred_volume);
                                page = arg_page a
                            in case load_rows json_data book_code volume page
                                      (arg_include_empty a) (arg_volume_pad a) (arg_page_pad a)
                                      (arg_column_pad a) of
                                 Inl err \<Rightarrow> (fx @ [ReadText json_path], Raised err)
                               | Inr rows \<Rightarrow>
                                   if rows = [] then
                                     (fx @ [ReadText json_path,
                                            Stderr (ustr ''No rows generated (all OCR entries were empty).'')],
                                      Returned)
                                   else
                                     (let base_name =
                                            book_code @ ustr ''_''
                                              @ zfill (str_int volume) (arg_volume_pad a);
                                          csv_path = path_join e (arg_output_dir a)
                                                       (base_name @ ustr ''.csv'');
                                          excel_path = path_join e (arg_output_dir a)
                                                         (base_name @ ustr ''.xlsx'')
                                      in (fx @ [ReadText json_path]
                                            @ write_csv e rows columns csv_path
                                            @ (if arg_write_excel a
                                               then write_excel e rows columns excel_path
                                               else [])
                                            @ [Stdout (ustr ''CSV written to '' @ csv_path)]
                                            @ (if arg_write_excel a
                                               then [Stdout (ustr ''Excel written to '' @ excel_path)]
                                               else []),
                                          Returned))))
                  | Inr _ \<Rightarrow> (fx @ [ReadText json_path], Raised AttributeError))))"

section \<open>Rendering a page of a PDF\<close>

text \<open>
  The PDF and image libraries, as far as the two rendering functions use them: opening a
  document gives its page count or raises; rendering a page of it at a zoom gives an
  image or raises; saving an image to a path may raise. An exception of the libraries is
  a \<open>FileNotFoundError\<close> or another one, with its message. The zoom is a Python float,
  only compared with zero and handed on: a real number here.
\<close>

datatype lib_error = FileNotFound pystr | OtherException pystr

record 'img pdf_lib =
  os_path_exists :: "pystr \<Rightarrow> bool"
  fitz_open :: "pystr \<Rightarrow> lib_error + nat"
  render_page :: "pystr \<Rightarrow> int \<Rightarrow> real \<Rightarrow> lib_error + 'img"
  image_save :: "pystr \<Rightarrow> 'img \<Rightarrow> lib_error option"

datatype 'img pdf_effect = Print pystr | SaveImage pystr 'img

text \<open>
  \<open>convert_pdf_page_to_image\<close> of \<open>convert_image.py\<close>: every exception is caught and
  printed, so the function always returns; what it did is the list of its effects.
\<close>

definition report :: "pystr \<Rightarrow> lib_error \<Rightarrow> 'img pdf_effect" where
  "report pdf_path err =
     (case err of
        FileNotFound msg \<Rightarrow> Print (ustr ''Error: PDF file not found at '' @ pdf_path)
      | OtherException msg \<Rightarrow> Print (ustr ''An error occurred: '' @ msg))"

definition convert_pdf_page_to_image ::
  "'img pdf_lib \<Rightarrow> pystr \<Rightarrow> int \<Rightarrow> pystr \<Rightarrow> real \<Rightarrow> 'img pdf_effect list" where
  "convert_pdf_page_to_image lib pdf_path page_number output_image_path zoom =
     (case fitz_open lib pdf_path of
        Inl err \<Rightarrow> [report pdf_path err]
      | Inr page_count \<Rightarrow>
          if 0 \<le> page_number \<and> page_number < int page_count then
            (case render_page lib pdf_path page_number zoom of
               Inl err \<Rightarrow> [report pdf_path err]
             | Inr img \<Rightarrow>
                 (case image_save lib output_image_path img of
                    Some err \<Rightarrow> [report pdf_path err]
                  | None \<Rightarrow>
                      [SaveImage output_image_path img,
                       Print (ustr ''Successfully converted page '' @ str_int (page_number + 1)
                                @ ustr '' to '' @ output_image_path)]))
          else
            [Print (ustr ''Error: Page number '' @ str_int page_number
                      @ ustr '' is out of range.'')])"

text \<open>
  \<open>convert_pdf_to_image\<close> of \<open>Source/pdf_to_preprocessed_image.py\<close>: it raises or returns
  the image. Its own exceptions are kept by class and cause, not by their message.
\<close>

datatype value_error = Zoom_not_positive | Page_out_of_range nat int

datatype convert_error =
    FileNotFoundError pystr
  | ValueError_of value_error
  | Library lib_error

definition convert_pdf_to_image ::
  "'img pdf_lib \<Rightarrow> pystr \<Rightarrow> int \<Rightarrow> real \<Rightarrow> convert_error + 'img" where
  "convert_pdf_to_image lib pdf_path page_num zoom =
     (if \<not> os_path_exists lib pdf_path then Inl (FileNotFoundError pdf_path)
      else if zoom \<le> 0 then Inl (ValueError_of Zoom_not_positive)
      else case fitz_open lib pdf_path of
             Inl err \<Rightarrow> Inl (Library err)
           | Inr page_count \<Rightarrow>
               if \<not> (0 \<le> page_num \<and> page_num < int page_count) then
                 Inl (ValueError_of (Page_out_of_range page_count page_num))
               else (case render_page lib pdf_path page_num zoom of
                       Inl err \<Rightarrow> Inl (Library err)
                     | Inr img \<Rightarrow> Inr img))"

section \<open>Notions of the specification\<close>

text \<open>
  The words the specification uses about the rows, for stating the properties below. An
  entry has text when it is a string whose trimmed text is not empty; its cleaned text is
  that trimmed text, and empty for a value that is not a string; the positions kept are the
  0-based positions of the entries that survive the filter, in order.
\<close>

definition has_text :: "json \<Rightarrow> bool" where
  "has_text t = (case t of JStr s \<Rightarrow> strip s \<noteq> [] | _ \<Rightarrow> False)"

definition cleaned_text :: "json \<Rightarrow> pystr" where
  "cleaned_text t = (case t of JStr s \<Rightarrow> strip s | _ \<Rightarrow> [])"

definition kept_positions :: "bool \<Rightarrow> json list \<Rightarrow> nat list" where
  "kept_positions include_empty texts =
     filter (\<lambda>i. include_empty \<or> has_text (texts ! i)) [0..<length texts]"

text \<open>What one pass through the loop body adds to the rows, if anything.\<close>

definition body_result :: "(nat \<Rightarrow> json \<Rightarrow> error + row option) \<Rightarrow> nat \<times> json \<Rightarrow> row option" where
  "body_result body = (\<lambda>(i, t). case body i t of Inl err \<Rightarrow> None | Inr r \<Rightarrow> r)"

text \<open>The effects that read or write the file system, and those that write it.\<close>

fun touches_files :: "effect \<Rightarrow> bool" where
  "touches_files (ReadText p) = True"
| "touches_files (Mkdir p) = True"
| "touches_files (WriteCsv p c) = True"
| "touches_files (WriteExcel p cs rs) = True"
| "touches_files _ = False"

fun writes_files :: "effect \<Rightarrow> bool" where
  "writes_files (Mkdir p) = True"
| "writes_files (WriteCsv p c) = True"
| "writes_files (WriteExcel p cs rs) = True"
| "writes_files _ = False"

fun saves_image :: "'img pdf_effect \<Rightarrow> bool" where
  "saves_image (SaveImage p img) = True"
| "saves_image (Print msg) = False"

section \<open>Example inputs\<close>

text \<open>
  An OCR result with four recognized entries (two Han characters, blanks only, a number
  where a string should be, and one character between an ideographic space and a blank)
  and two polygons, the second of them empty.
\<close>

definition example_texts :: "json list" where
  "example_texts =
     [JStr [0x5929, 0x5730], JStr (ustr ''  ''), JInt 5, JStr [0x3000, 0x738B, 0x20]]"

definition example_polys :: "json list" where
  "example_polys = [JArr [JArr [JInt 1, JInt 2], JArr [JInt 3, JInt 4]], JArr []]"

definition example_json :: json_obj where
  "example_json =
     [(ustr ''input_path'', JStr (ustr ''img/giam_cuong_7.png'')),
      (ustr ''rec_texts'', JArr example_texts),
      (ustr ''rec_polys'', JArr example_polys)]"

text \<open>An OCR result whose only entries are blank or not strings: no row survives.\<close>

definition blank_json :: json_obj where
  "blank_json = [(ustr ''rec_texts'', JArr [JStr (ustr ''  ''), JNull])]"

text \<open>
  Stand-ins for the library functions, for the examples only: the stem of a relative path
  with forward slashes (the last component, up to its last dot when that dot is neither
  its first nor its last character), and a CSV text without quoting.
\<close>

definition simple_stem :: "pystr \<Rightarrow> pystr" where
  "simple_stem p =
     (let name = last (split_on 0x2F p);
          parts = split_on 0x2E name;
          before = join (ustr ''.'') (butlast parts)
      in if before \<noteq> [] \<and> last parts \<noteq> [] then before else name)"

definition simple_csv :: "pystr list \<Rightarrow> row list \<Rightarrow> pystr" where
  "simple_csv cols rows =
     join (ustr ''; '')
       (join (ustr '','') cols
          # map (\<lambda>r. join (ustr '','') [ID r, Image_name r, Han_Char r, Image_Box r]) rows)"

text \<open>Surroundings in which exactly one JSON file exists and parses to \<open>blank_json\<close>.\<close>

definition example_env :: env where
  "example_env =
     \<lparr>stdin_line = Some (ustr '' output/giam_cuong_7_res.json ''),
      path_exists = (\<lambda>p. p = ustr ''output/giam_cuong_7_res.json''),
      read_text = (\<lambda>p. if p = ustr ''output/giam_cuong_7_res.json''
                        then Inr (ustr ''{}'') else Inl OSError),
      json_loads = (\<lambda>t. Inr (JObj blank_json)),
      path_stem = simple_stem,
      path_parent = (\<lambda>p. ustr ''output''),
      path_join = (\<lambda>d f. d @ ustr ''/'' @ f),
      csv_text = simple_csv,
      pandas_import_error = None\<rparr>"

definition example_args :: args where
  "example_args =
     \<lparr>arg_json_path = None, arg_book_code_arg = None, arg_book_code = None,
      arg_base_book_code = ustr ''BOOK_BASE'', arg_volume = None, arg_page = 1,
      arg_output_dir = ustr ''output'', arg_include_empty = False, arg_write_excel = False,
      arg_volume_pad = 3, arg_page_pad = 3, arg_column_pad = 2\<rparr>"

text \<open>A PDF library under which every document opens with five pages.\<close>

definition five_pages :: "nat pdf_lib" where
  "five_pages =
     \<lparr>os_path_exists = (\<lambda>p. True),
      fitz_open = (\<lambda>p. Inr 5),
      render_page = (\<lambda>p n z. Inr (nat n)),
      image_save = (\<lambda>p img. None)\<rparr>"

section \<open>Properties\<close>

subsection \<open>Auxiliary facts\<close>

lemma digits_of_nonempty: "digits_of n \<noteq> []"
  by (subst digits_of.simps) simp

lemma digits_of_range: "c \<in> set (digits_of n) \<Longrightarrow> 48 \<le> c \<and> c \<le> 57"
proof (induction n arbitrary: c rule: digits_of.induct)
  case (1 n)
  show ?case
  proof (cases "n < 10")
    case True
    with "1.prems" show ?thesis by (subst (asm) digits_of.simps) simp
  next
    case False
    from "1.prems" have "c \<in> set (digits_of (n div 10)) \<or> c = 48 + n mod 10"
      using False by (subst (asm) digits_of.simps) auto
    then show ?thesis
    proof
      assume "c \<in> set (digits_of (n div 10))"
      with "1.IH" False show ?thesis by blast
    next
      assume "c = 48 + n mod 10"
      then show ?thesis by simp
    qed
  qed
qed

lemma decimal_value_ascii: "d < 10 \<Longrightarrow> decimal_value (48 + d) = Some d"
  by (simp add: decimal_value_def decimal_zeros_def)

lemma digits_value_append:
  "digits_value acc (xs @ ys) =
     (case digits_value acc xs of None \<Rightarrow> None | Some v \<Rightarrow> digits_value v ys)"
  by (induction xs arbitrary: acc) (auto split: option.splits)

lemma digits_value_digits_of: "digits_value 0 (digits_of n) = Some n"
proof (induction n rule: digits_of.induct)
  case (1 n)
  show ?case
  proof (cases "n < 10")
    case True
    then show ?thesis
      by (subst digits_of.simps) (simp add: decimal_value_ascii)
  next
    case False
    have "digits_value 0 (digits_of (n div 10) @ [48 + n mod 10]) = Some n"
      using "1.IH" False by (simp add: digits_value_append decimal_value_ascii)
    then show ?thesis using False by (subst digits_of.simps) simp
  qed
qed

lemma digits_value_zeros: "digits_value 0 (replicate k 48 @ s) = digits_value 0 s"
  by (induction k) (simp_all add: decimal_value_def decimal_zeros_def)

lemma str_int_nonneg: "0 \<le> n \<Longrightarrow> str_int n = digits_of (nat n)"
  by (simp add: str_int_def)

lemma str_int_neg: "n < 0 \<Longrightarrow> str_int n = 45 # str_int (- n)"
  by (simp add: str_int_def)

lemma hd_digits_of: "digits_of n = c # cs \<Longrightarrow> c \<noteq> 43 \<and> c \<noteq> 45"
  using digits_of_range [of c n] by auto

lemma zfill_str_int: "zfill (str_int n) width = zero_padded width n"
proof (cases "0 \<le> n")
  case True
  obtain c cs where s: "digits_of (nat n) = c # cs"
    using digits_of_nonempty [of "nat n"] by (cases "digits_of (nat n)") auto
  with hd_digits_of have "c \<noteq> 43" "c \<noteq> 45" by blast+
  then show ?thesis using True s
    by (auto simp: zfill_def zero_padded_def str_int_nonneg Let_def nat_diff_distrib')
next
  case False
  then have "n < 0" by simp
  then show ?thesis
    by (auto simp: zfill_def zero_padded_def str_int_neg Let_def nat_diff_distrib')
qed

lemma length_zero_padded: "length (zero_padded width n) = max (nat width) (length (str_int n))"
  by (auto simp: zero_padded_def str_int_neg)


lemma split_on_nonempty: "split_on sep s \<noteq> []"
  by (induction s) (auto split: list.splits)

lemma split_on_no_sep: "sep \<notin> set t \<Longrightarrow> split_on sep t = [t]"
  by (induction t) auto

lemma split_on_append: "split_on sep (p @ sep # q) = split_on sep p @ split_on sep q"
proof (induction p)
  case Nil
  show ?case by simp
next
  case (Cons c p)
  obtain x xs where "split_on sep p = x # xs"
    using split_on_nonempty [of sep p] by (cases "split_on sep p") auto
  with Cons show ?case by simp
qed

lemma join_split_on: "join [sep] (split_on sep s) = s"
proof (induction s)
  case Nil
  show ?case by simp
next
  case (Cons c s)
  obtain x xs where x: "split_on sep s = x # xs"
    using split_on_nonempty [of sep s] by (cases "split_on sep s") auto
  show ?case
  proof (cases "c = sep")
    case True
    with Cons x show ?thesis by simp
  next
    case False
    with Cons x show ?thesis by (cases xs) auto
  qed
qed


lemma ustr_underscore: "ustr ''_'' = [0x5F]"
  by (simp add: ustr_def)

lemma digits_value_decimal:
  "digits_value acc d = Some n \<Longrightarrow> c \<in> set d \<Longrightarrow> decimal_value c \<noteq> None"
  by (induction d arbitrary: acc) (auto split: option.splits)

lemma not_decimal_underscore: "decimal_value 0x5F = None"
  by (simp add: decimal_value_def decimal_zeros_def)

lemma literal_isdigit:
  assumes "d \<noteq> []" "digits_value 0 d = Some n"
  shows "isdigit d" and "0x5F \<notin> set d"
proof -
  have dec: "\<And>c. c \<in> set d \<Longrightarrow> decimal_value c \<noteq> None"
    using assms(2) digits_value_decimal by blast
  then show "isdigit d"
    using assms(1) by (auto simp: isdigit_def isdigit_cp_def list_all_iff)
  show "0x5F \<notin> set d"
    using dec not_decimal_underscore by blast
qed

lemma py_int_literal: "d \<noteq> [] \<Longrightarrow> digits_value 0 d = Some n \<Longrightarrow> py_int d = Inr (int n)"
  by (simp add: py_int_def)


lemma infer_single:
  assumes "0x5F \<notin> set t"
  shows "infer_from_stem t =
           (if isdigit t then
              case py_int t of Inl err \<Rightarrow> Inl err | Inr v \<Rightarrow> Inr (t, v)
            else Inr (t, 1))"
  using assms by (simp add: infer_from_stem_def split_on_no_sep split: sum.splits)

lemma infer_prefixed:
  assumes "0x5F \<notin> set t"
  shows "infer_from_stem (p @ 0x5F # t) =
           (if isdigit t then
              case py_int t of
                Inl err \<Rightarrow> Inl err
              | Inr v \<Rightarrow> Inr (if p \<noteq> [] then p else 0x5F # t, v)
            else Inr (p @ 0x5F # t, 1))"
  using assms
  by (simp add: infer_from_stem_def split_on_append split_on_no_sep split_on_nonempty
      ustr_underscore join_split_on split: sum.splits)


lemma load_rows_loop_result:
  "load_rows_loop body idx texts rows = Inr out \<Longrightarrow>
     out = rows @ List.map_filter (body_result body) (List.enumerate idx texts)"
proof (induction texts arbitrary: idx rows)
  case Nil
  then show ?case by (simp add: map_filter_simps)
next
  case (Cons t ts)
  show ?case
  proof (cases "body idx t")
    case (Inl err)
    with Cons.prems show ?thesis by simp
  next
    case (Inr r)
    show ?thesis
    proof (cases r)
      case None
      with Inr Cons.prems have "load_rows_loop body (Suc idx) ts rows = Inr out" by simp
      from Cons.IH [OF this] show ?thesis
        using Inr None by (simp add: map_filter_simps body_result_def)
    next
      case (Some x)
      with Inr Cons.prems have "load_rows_loop body (Suc idx) ts (rows @ [x]) = Inr out" by simp
      from Cons.IH [OF this] show ?thesis
        using Inr Some by (simp add: map_filter_simps body_result_def)
    qed
  qed
qed

lemma load_rows_loop_total:
  assumes "\<And>i t. \<exists>r. body i t = Inr r"
  shows "\<exists>out. load_rows_loop body idx texts rows = Inr out"
proof (induction texts arbitrary: idx rows)
  case Nil
  show ?case by simp
next
  case (Cons t ts)
  obtain r where r: "body idx t = Inr r" using assms by blast
  show ?case using r Cons.IH by (cases r) simp_all
qed

lemma enumerate_positions:
  "List.enumerate 1 xs = map (\<lambda>i. (Suc i, xs ! i)) [0..<length xs]"
  by (rule nth_equalityI) (simp_all add: nth_enumerate_eq)

lemma map_filter_map: "List.map_filter f (map h xs) = List.map_filter (f \<circ> h) xs"
  by (induction xs) (simp_all add: map_filter_simps split: option.splits)

lemma map_filter_if:
  "List.map_filter (\<lambda>x. if P x then Some (g x) else None) xs = map g (filter P xs)"
  by (induction xs) (simp_all add: map_filter_simps)

lemma length_filter_nth:
  "length (filter (\<lambda>i. P (xs ! i)) [0..<length xs]) = length (filter P xs)"
proof -
  have "filter P xs = filter P (map (nth xs) [0..<length xs])" by (simp add: map_nth)
  also have "\<dots> = map (nth xs) (filter (P \<circ> nth xs) [0..<length xs])" by (simp only: filter_map)
  finally show ?thesis by (simp add: comp_def)
qed

lemma load_row_list:
  "load_row (JArr polys) book_code volume page include_empty volume_pad page_pad column_pad
       image_name (Suc i) t =
     Inr (if include_empty \<or> has_text t then
            Some \<lparr>ID = build_id book_code volume page (int (Suc i)) volume_pad page_pad column_pad,
                  Image_name = image_name,
                  Han_Char = cleaned_text t,
                  Image_Box = (if i < length polys \<and> truthy (polys ! i)
                               then dumps (polys ! i) else [])\<rparr>
          else None)"
  by (cases t) (auto simp: load_row_def has_text_def cleaned_text_def)



lemma set_map_filter_iff: "r \<in> set (List.map_filter f ps) \<longleftrightarrow> (\<exists>p\<in>set ps. f p = Some r)"
  by (induction ps) (auto split: option.splits)

lemma distinct_map_filter_key:
  assumes key: "\<And>p r. f p = Some r \<Longrightarrow> key r = h (fst p)"
    and inj: "inj h"
  shows "distinct (map fst ps) \<Longrightarrow> distinct (map key (List.map_filter f ps))"
proof (induction ps)
  case Nil
  show ?case by simp
next
  case (Cons p ps)
  then have IH: "distinct (map key (List.map_filter f ps))" by simp
  show ?case
  proof (cases "f p")
    case None
    with IH show ?thesis by simp
  next
    case (Some r)
    have "key r \<notin> key ` set (List.map_filter f ps)"
    proof
      assume "key r \<in> key ` set (List.map_filter f ps)"
      then obtain r' where r': "r' \<in> set (List.map_filter f ps)" "key r' = key r" by auto
      then obtain p' where p': "p' \<in> set ps" "f p' = Some r'"
        by (auto simp: set_map_filter_iff)
      from key [OF Some] key [OF p'(2)] r'(2) have "h (fst p') = h (fst p)" by simp
      with inj have "fst p' = fst p" by (simp add: inj_eq)
      with Cons.prems p'(1) show False by (auto simp: image_iff)
    qed
    with IH Some show ?thesis by simp
  qed
qed

lemma digits_value_zero_padded: "digits_value 0 (zero_padded width (int i)) = Some i"
  by (simp add: zero_padded_def str_int_nonneg digits_value_zeros digits_value_digits_of)

lemma build_id_inj: "inj (\<lambda>i. build_id book_code volume page (int i) volume_pad page_pad column_pad)"
proof (rule injI)
  fix i j
  assume "build_id book_code volume page (int i) volume_pad page_pad column_pad =
          build_id book_code volume page (int j) volume_pad page_pad column_pad"
  then have "zero_padded column_pad (int i) = zero_padded column_pad (int j)"
    by (simp add: build_id_def zfill_str_int)
  then have "digits_value 0 (zero_padded column_pad (int i)) =
             digits_value 0 (zero_padded column_pad (int j))" by simp
  then show "i = j" by (simp add: digits_value_zero_padded)
qed

lemma load_row_fields:
  assumes "load_row rec_polys book_code volume page include_empty volume_pad page_pad column_pad
             image_name idx t = Inr (Some r)"
  shows "ID r = build_id book_code volume page (int idx) volume_pad page_pad column_pad"
    and "Image_name r = image_name"
  using assms by (auto simp: load_row_def Let_def split: if_splits sum.splits)

lemma load_row_list_total:
  "\<exists>r. load_row (JArr polys) book_code volume page include_empty volume_pad page_pad column_pad
       image_name idx t = Inr r"
  by (simp add: load_row_def Let_def)

lemma load_rows_lists:
  assumes texts: "dict_get json_data (ustr ''rec_texts'') (JArr []) = JArr texts"
    and polys: "dict_get json_data (ustr ''rec_polys'') (JArr []) = JArr polys"
  shows "load_rows json_data book_code volume page include_empty volume_pad page_pad column_pad =
           Inr (map (\<lambda>i. \<lparr>ID = build_id book_code volume page (int (Suc i))
                                  volume_pad page_pad column_pad,
                           Image_name = book_code @ ustr ''_page_''
                                          @ zfill (str_int page) page_pad @ ustr ''.png'',
                           Han_Char = cleaned_text (texts ! i),
                           Image_Box = (if i < length polys \<and> truthy (polys ! i)
                                        then dumps (polys ! i) else [])\<rparr>)
                  (kept_positions include_empty texts))"
proof -
  define image_name where
    "image_name = book_code @ ustr ''_page_'' @ zfill (str_int page) page_pad @ ustr ''.png''"
  define body where
    "body = load_row (JArr polys) book_code volume page include_empty volume_pad page_pad
              column_pad image_name"
  have run: "load_rows json_data book_code volume page include_empty volume_pad page_pad
               column_pad = load_rows_loop body 1 texts []"
    by (simp add: load_rows_def texts polys body_def image_name_def)
  obtain out where out: "load_rows_loop body 1 texts [] = Inr out"
    using load_rows_loop_total [of body 1 texts "[]"] load_row_list_total
    unfolding body_def by blast
  have "out = List.map_filter (body_result body) (List.enumerate 1 texts)"
    using load_rows_loop_result [OF out] by simp
  also have "\<dots> = List.map_filter (body_result body \<circ> (\<lambda>i. (Suc i, texts ! i))) [0..<length texts]"
    by (simp only: enumerate_positions map_filter_map)
  also have "body_result body \<circ> (\<lambda>i. (Suc i, texts ! i)) =
      (\<lambda>i. if include_empty \<or> has_text (texts ! i) then
              Some \<lparr>ID = build_id book_code volume page (int (Suc i))
                            volume_pad page_pad column_pad,
                    Image_name = image_name,
                    Han_Char = cleaned_text (texts ! i),
                    Image_Box = (if i < length polys \<and> truthy (polys ! i)
                                 then dumps (polys ! i) else [])\<rparr>
            else None)"
    by (rule ext) (simp add: body_result_def body_def load_row_list)
  finally show ?thesis
    unfolding run out by (simp add: map_filter_if kept_positions_def image_name_def)
qed

lemma ensure_json_path_effects:
  "ensure_json_path e a = (fx, r) \<Longrightarrow> fx = [] \<or> (\<exists>prompt. fx = [Input prompt])"
  by (auto simp: ensure_json_path_def Let_def split: option.splits if_splits)

subsection \<open>Evaluating the examples\<close>

lemma replicate_numeral: "replicate (numeral k) x = x # replicate (pred_numeral k) x"
  by (simp add: numeral_eq_Suc)

lemmas eval_id =
  build_id_def zfill_def str_int_def digits_of.simps ustr_def Let_def replicate_numeral

lemmas eval_digit = isdigit_def isdigit_cp_def decimal_value_def decimal_zeros_def py_int_def

lemma example_rec_texts:
  "dict_get example_json (ustr ''rec_texts'') (JArr []) = JArr example_texts"
  by (simp add: example_json_def dict_get_def ustr_def)

lemma example_rec_polys:
  "dict_get example_json (ustr ''rec_polys'') (JArr []) = JArr example_polys"
  by (simp add: example_json_def dict_get_def ustr_def)

lemma example_rows:
  "load_rows example_json (ustr ''LSE_001'') 4 1 False 3 3 2 =
     Inr [\<lparr>ID = ustr ''LSE_001.004.001.01'', Image_name = ustr ''LSE_001_page_001.png'',
            Han_Char = [0x5929, 0x5730], Image_Box = ustr ''[[1, 2], [3, 4]]''\<rparr>,
          \<lparr>ID = ustr ''LSE_001.004.001.04'', Image_name = ustr ''LSE_001_page_001.png'',
            Han_Char = [0x738B], Image_Box = []\<rparr>]"
  unfolding load_rows_def example_rec_texts example_rec_polys
  by (simp add: example_texts_def example_polys_def load_row_def strip_def isspace_cp_def
      eval_id)

lemma example_kept:
  "kept_positions False example_texts = [0, 3]"
  "kept_positions True example_texts = [0, 1, 2, 3]"
  by (simp_all add: kept_positions_def example_texts_def has_text_def strip_def isspace_cp_def
      ustr_def upt_rec [of 0] upt_rec [of 1] upt_rec [of 2] upt_rec [of 3])

lemma example_has_text: "filter has_text example_texts = [JStr [0x5929, 0x5730], JStr [0x3000, 0x738B, 0x20]]"
  by (simp add: example_texts_def has_text_def strip_def isspace_cp_def ustr_def)

lemma infer_seven: "infer_from_stem (ustr ''7'') = Inr (ustr ''7'', 7)"
  by (simp add: infer_from_stem_def ustr_def eval_digit)

subsection \<open>Claims\<close>

text \<open>
  C1: when the \<open>rec_texts\<close> and \<open>rec_polys\<close> of the OCR result are lists (an absent key
  counts as the empty list), \<open>load_rows\<close> returns rows, and as many of them as there are
  entries that are strings with non-empty trimmed text when the include-empty flag is off,
  and as many as there are entries when it is on.
\<close>

theorem load_rows_count:
  assumes "dict_get json_data (ustr ''rec_texts'') (JArr []) = JArr texts"
    and "dict_get json_data (ustr ''rec_polys'') (JArr []) = JArr polys"
  shows "\<exists>rows. load_rows json_data book_code volume page include_empty
                   volume_pad page_pad column_pad = Inr rows \<and>
                length rows = (if include_empty then length texts
                               else length (filter has_text texts))"
proof -
  have "length (kept_positions include_empty texts) =
          (if include_empty then length texts else length (filter has_text texts))"
    by (simp add: kept_positions_def length_filter_nth)
  then show ?thesis
    by (simp add: load_rows_lists [OF assms])
qed

theorem load_rows_count_witness:
  "(\<exists>rows. load_rows example_json (ustr ''LSE_001'') 4 1 False 3 3 2 = Inr rows \<and>
            length rows = 2) \<and>
   (\<exists>rows. load_rows example_json (ustr ''LSE_001'') 4 1 True 3 3 2 = Inr rows \<and>
            length rows = 4)"
proof
  have off: "(if False then length example_texts
              else length (filter has_text example_texts)) = 2"
    by (simp add: example_has_text)
  have "\<exists>rows. load_rows example_json (ustr ''LSE_001'') 4 1 False 3 3 2 = Inr rows \<and>
          length rows = (if False then length example_texts
                         else length (filter has_text example_texts))"
    by (rule load_rows_count [OF example_rec_texts example_rec_polys])
  then show "\<exists>rows. load_rows example_json (ustr ''LSE_001'') 4 1 False 3 3 2 = Inr rows \<and>
          length rows = 2"
    by (simp only: off)
  have on: "(if True then length example_texts
             else length (filter has_text example_texts)) = 4"
    by (simp add: example_texts_def)
  have "\<exists>rows. load_rows example_json (ustr ''LSE_001'') 4 1 True 3 3 2 = Inr rows \<and>
          length rows = (if True then length example_texts
                         else length (filter has_text example_texts))"
    by (rule load_rows_count [OF example_rec_texts example_rec_polys])
  then show "\<exists>rows. load_rows example_json (ustr ''LSE_001'') 4 1 True 3 3 2 = Inr rows \<and>
          length rows = 4"
    by (simp only: on)
qed

text \<open>
  C2, as amended: when the part of the stem after its last underscore (the whole stem, if
  it has none) is a non-empty string \<open>d\<close> of decimal digits denoting \<open>n\<close>, the volume is
  \<open>n\<close> and the book code is the part before that underscore, or the whole stem when that
  part is empty or there is no underscore; when that last part \<open>t\<close> is empty or has a
  character that is not a digit, the book code is the whole stem and the volume is 1. The
  stem \<open>giam_cuong_7\<close> gives \<open>giam_cuong\<close> and 7, the stem \<open>report\<close> gives \<open>report\<close>
  and 1.
\<close>

theorem infer_from_stem_amended:
  "(d \<noteq> [] \<and> digits_value 0 d = Some n \<longrightarrow>
      infer_from_stem (p @ ustr ''_'' @ d) = Inr (if p = [] then ustr ''_'' @ d else p, int n) \<and>
      infer_from_stem d = Inr (d, int n)) \<and>
   (0x5F \<notin> set t \<and> \<not> isdigit t \<longrightarrow>
      infer_from_stem (p @ ustr ''_'' @ t) = Inr (p @ ustr ''_'' @ t, 1) \<and>
      infer_from_stem t = Inr (t, 1)) \<and>
   infer_from_stem (ustr ''giam_cuong_7'') = Inr (ustr ''giam_cuong'', 7) \<and>
   infer_from_stem (ustr ''report'') = Inr (ustr ''report'', 1)"
proof (intro conjI impI)
  assume lit: "d \<noteq> [] \<and> digits_value 0 d = Some n"
  then have d: "isdigit d" "0x5F \<notin> set d" "py_int d = Inr (int n)"
    using literal_isdigit py_int_literal by blast+
  show "infer_from_stem (p @ ustr ''_'' @ d) = Inr (if p = [] then ustr ''_'' @ d else p, int n)"
    using d by (simp add: ustr_underscore infer_prefixed)
  show "infer_from_stem d = Inr (d, int n)"
    using d by (simp add: infer_single)
next
  assume other: "0x5F \<notin> set t \<and> \<not> isdigit t"
  then show "infer_from_stem (p @ ustr ''_'' @ t) = Inr (p @ ustr ''_'' @ t, 1)"
    by (simp add: ustr_underscore infer_prefixed)
  from other show "infer_from_stem t = Inr (t, 1)"
    by (simp add: infer_single)
next
  show "infer_from_stem (ustr ''giam_cuong_7'') = Inr (ustr ''giam_cuong'', 7)"
    by (simp add: infer_from_stem_def ustr_def eval_digit)
  show "infer_from_stem (ustr ''report'') = Inr (ustr ''report'', 1)"
    by (simp add: infer_from_stem_def ustr_def eval_digit digit_only_ranges_def)
qed

theorem infer_from_stem_amended_witness:
  "infer_from_stem (ustr ''LSE_001'' @ ustr ''_'' @ ustr ''12'') = Inr (ustr ''LSE_001'', 12) \<and>
   infer_from_stem (ustr ''_'' @ ustr ''12'') = Inr (ustr ''_12'', 12) \<and>
   infer_from_stem (ustr ''giam_cuong_7'' @ ustr ''_'' @ ustr ''res'') =
     Inr (ustr ''giam_cuong_7_res'', 1)"
proof -
  have lit: "ustr ''12'' \<noteq> [] \<and> digits_value 0 (ustr ''12'') = Some 12"
    by (simp add: ustr_def decimal_value_def decimal_zeros_def)
  have other: "0x5F \<notin> set (ustr ''res'') \<and> \<not> isdigit (ustr ''res'')"
    by (simp add: ustr_def eval_digit digit_only_ranges_def)
  note th = infer_from_stem_amended
  have a: "infer_from_stem (ustr ''LSE_001'' @ ustr ''_'' @ ustr ''12'') =
             Inr (if ustr ''LSE_001'' = [] then ustr ''_'' @ ustr ''12'' else ustr ''LSE_001'', int 12)"
    using th [of "ustr ''12''" 12 "ustr ''LSE_001''"] lit by blast
  have b: "infer_from_stem ([] @ ustr ''_'' @ ustr ''12'') =
             Inr (if ([]::pystr) = [] then ustr ''_'' @ ustr ''12'' else [], int 12)"
    using th [of "ustr ''12''" 12 "[]"] lit by blast
  have c: "infer_from_stem (ustr ''giam_cuong_7'' @ ustr ''_'' @ ustr ''res'') =
             Inr (ustr ''giam_cuong_7'' @ ustr ''_'' @ ustr ''res'', 1)"
    using th [of _ _ "ustr ''giam_cuong_7''" "ustr ''res''"] other by blast
  from a b c show ?thesis by (simp add: ustr_def)
qed

text \<open>
  The claim as first stated fails at the stem \<open>7\<close>: its last segment is an integer
  literal and the underscore-joined remaining prefix is empty, yet the book code returned
  is not that prefix but the stem.
\<close>

theorem infer_from_stem_prefix_counterexample:
  "isdigit (last (split_on 0x5F (ustr ''7''))) \<and>
   join (ustr ''_'') (butlast (split_on 0x5F (ustr ''7''))) = [] \<and>
   infer_from_stem (ustr ''7'') = Inr (ustr ''7'', 7) \<and>
   infer_from_stem (ustr ''7'') \<noteq>
     Inr (join (ustr ''_'') (butlast (split_on 0x5F (ustr ''7''))), 7)"
  by (simp add: infer_seven) (simp add: ustr_def eval_digit)

text \<open>
  C3: \<open>build_id\<close> is the book code and the zero-padded decimal renderings of volume,
  page and column, joined by dots; a padded component is as long as the longer of the
  width and the rendering and ends with the number's digits, so nothing is cut off. The
  examples of the specification come out as it gives them.
\<close>

theorem build_id_format:
  "build_id book_code volume page column_idx volume_pad page_pad column_pad =
     book_code @ ustr ''.'' @ zero_padded volume_pad volume @ ustr ''.''
       @ zero_padded page_pad page @ ustr ''.'' @ zero_padded column_pad column_idx \<and>
   length (zero_padded width n) = max (nat width) (length (str_int n)) \<and>
   suffix (str_int \<bar>n\<bar>) (zero_padded width n) \<and>
   build_id (ustr ''LSE_001'') 4 1 1 3 3 2 = ustr ''LSE_001.004.001.01'' \<and>
   build_id (ustr ''LSE_001'') 4 1 10 3 3 2 = ustr ''LSE_001.004.001.10'' \<and>
   build_id (ustr ''LSE_001'') 4 1 100 3 3 2 = ustr ''LSE_001.004.001.100''"
proof (intro conjI)
  show "build_id book_code volume page column_idx volume_pad page_pad column_pad =
     book_code @ ustr ''.'' @ zero_padded volume_pad volume @ ustr ''.''
       @ zero_padded page_pad page @ ustr ''.'' @ zero_padded column_pad column_idx"
    by (simp add: build_id_def zfill_str_int)
  show "length (zero_padded width n) = max (nat width) (length (str_int n))"
    by (rule length_zero_padded)
  show "suffix (str_int \<bar>n\<bar>) (zero_padded width n)"
    by (cases "0 \<le> n") (simp_all add: zero_padded_def suffix_def abs_if)
  show "build_id (ustr ''LSE_001'') 4 1 1 3 3 2 = ustr ''LSE_001.004.001.01''"
    by (simp add: eval_id)
  show "build_id (ustr ''LSE_001'') 4 1 10 3 3 2 = ustr ''LSE_001.004.001.10''"
    by (simp add: eval_id)
  show "build_id (ustr ''LSE_001'') 4 1 100 3 3 2 = ustr ''LSE_001.004.001.100''"
    by (simp add: eval_id)
qed

theorem build_id_format_witness:
  "build_id (ustr ''giam_cuong'') 7 12 3 3 3 2 = ustr ''giam_cuong.007.012.03'' \<and>
   length (zero_padded 2 100) = 3"
proof -
  have pads: "zero_padded 3 7 = ustr ''007''" "zero_padded 3 12 = ustr ''012''"
    "zero_padded 2 3 = ustr ''03''" "str_int 100 = ustr ''100''"
    by (simp_all add: zero_padded_def eval_id)
  have "build_id (ustr ''giam_cuong'') 7 12 3 3 3 2 =
          ustr ''giam_cuong'' @ ustr ''.'' @ zero_padded 3 7 @ ustr ''.''
            @ zero_padded 3 12 @ ustr ''.'' @ zero_padded 2 3"
    and "length (zero_padded 2 100) = max (nat 2) (length (str_int 100))"
    using build_id_format [of "ustr ''giam_cuong''" 7 12 3 3 3 2 2 100] by blast+
  then show ?thesis by (simp add: pads) (simp add: ustr_def)
qed

text \<open>
  C4: the identifiers of the rows one call of \<open>load_rows\<close> returns are pairwise
  distinct: they are \<open>build_id\<close> at column indices that start at 1 or later and strictly
  increase along the rows.
\<close>

theorem load_rows_ids_distinct:
  assumes "load_rows json_data book_code volume page include_empty
             volume_pad page_pad column_pad = Inr rows"
  shows "distinct (map ID rows) \<and>
         (\<exists>cols. map ID rows =
                    map (\<lambda>c. build_id book_code volume page (int c) volume_pad page_pad column_pad)
                      cols \<and>
                  sorted_wrt (<) cols \<and> list_all (\<lambda>c. 1 \<le> c) cols)"
proof -
  define image_name where
    "image_name = book_code @ ustr ''_page_'' @ zfill (str_int page) page_pad @ ustr ''.png''"
  define body where
    "body = load_row (dict_get json_data (ustr ''rec_polys'') (JArr [])) book_code volume page
              include_empty volume_pad page_pad column_pad image_name"
  define h where
    "h = (\<lambda>c. build_id book_code volume page (int c) volume_pad page_pad column_pad)"
  obtain texts where loop: "load_rows_loop body 1 texts [] = Inr rows"
    using assms
    by (auto simp: load_rows_def body_def image_name_def Let_def split: sum.splits)
  define ps where "ps = List.enumerate 1 texts"
  have rows: "rows = List.map_filter (body_result body) ps"
    using load_rows_loop_result [OF loop] by (simp add: ps_def)
  have key: "ID r = h (fst q)" if "body_result body q = Some r" for q r
  proof -
    obtain i t where q: "q = (i, t)" by (cases q)
    with that have "body i t = Inr (Some r)"
      by (auto simp: body_result_def split: sum.splits)
    then show ?thesis
      unfolding body_def h_def q by (simp add: load_row_fields(1))
  qed
  have fsts: "map fst ps = [1..<1 + length texts]"
    by (simp add: ps_def)
  have "inj h" unfolding h_def by (rule build_id_inj)
  moreover have "distinct (map fst ps)" by (simp add: fsts)
  ultimately have "distinct (map ID rows)"
    unfolding rows using key distinct_map_filter_key [of "body_result body" ID h ps] by blast
  moreover
  define cols where "cols = map fst (filter (\<lambda>q. body_result body q \<noteq> None) ps)"
  have "map ID rows = map h cols"
    unfolding rows cols_def using key
    by (induction ps) (auto split: option.splits)
  moreover have "sorted_wrt (<) cols"
  proof -
    have "sorted_wrt (<) (map fst ps)" unfolding fsts by (rule sorted_wrt_upt)
    then have "sorted_wrt (\<lambda>a b. fst a < fst b) ps" by (simp add: sorted_wrt_map)
    then have "sorted_wrt (\<lambda>a b. fst a < fst b) (filter (\<lambda>q. body_result body q \<noteq> None) ps)"
      by (rule sorted_wrt_filter)
    then show ?thesis by (simp add: cols_def sorted_wrt_map)
  qed
  moreover have "list_all (\<lambda>c. 1 \<le> c) cols"
  proof -
    have "set cols \<subseteq> set (map fst ps)" by (auto simp: cols_def)
    then show ?thesis by (auto simp: fsts list_all_iff)
  qed
  ultimately show ?thesis unfolding h_def by blast
qed

theorem load_rows_ids_distinct_witness:
  "distinct [ustr ''LSE_001.004.001.01'', ustr ''LSE_001.004.001.04'']"
  using load_rows_ids_distinct [OF example_rows] by simp

text \<open>
  C5: when the JSON file does not exist, \<open>main\<close> ends by \<open>sys.exit\<close> with a message
  naming the path, having read and written nothing; when the file is read and parsed and
  \<open>load_rows\<close> returns no row, it prints the empty-result message to standard error,
  writes nothing and returns.
\<close>

theorem main_missing_or_empty:
  "(ensure_json_path e a = (fx, Inr json_path) \<and> \<not> path_exists e json_path \<longrightarrow>
      main e a = (fx, SysExit (ustr ''Input JSON not found: '' @ json_path)) \<and>
      \<not> list_ex touches_files fx) \<and>
   (ensure_json_path e a = (fx, Inr json_path) \<and> path_exists e json_path \<and>
    read_text e json_path = Inr content \<and> json_loads e content = Inr (JObj json_data) \<and>
    infer_book_and_volume (path_stem e) json_data json_path = Inr (inferred_book, inferred_volume) \<and>
    load_rows json_data
      (or_else (arg_book_code a)
         (or_else (arg_book_code_arg a) (or_else (Some inferred_book) (arg_base_book_code a))))
      (case arg_volume a of Some v \<Rightarrow> v | None \<Rightarrow> inferred_volume)
      (arg_page a) (arg_include_empty a) (arg_volume_pad a) (arg_page_pad a) (arg_column_pad a) =
      Inr [] \<longrightarrow>
      main e a =
        (fx @ [ReadText json_path,
               Stderr (ustr ''No rows generated (all OCR entries were empty).'')],
         Returned) \<and>
      \<not> list_ex writes_files (fst (main e a)))"
proof (intro conjI impI)
  assume h: "ensure_json_path e a = (fx, Inr json_path) \<and> \<not> path_exists e json_path"
  then show "main e a = (fx, SysExit (ustr ''Input JSON not found: '' @ json_path))"
    by (simp add: main_def)
  from h show "\<not> list_ex touches_files fx"
    using ensure_json_path_effects [of e a fx "Inr json_path"] by auto
next
  assume h: "ensure_json_path e a = (fx, Inr json_path) \<and> path_exists e json_path \<and>
    read_text e json_path = Inr content \<and> json_loads e content = Inr (JObj json_data) \<and>
    infer_book_and_volume (path_stem e) json_data json_path = Inr (inferred_book, inferred_volume) \<and>
    load_rows json_data
      (or_else (arg_book_code a)
         (or_else (arg_book_code_arg a) (or_else (Some inferred_book) (arg_base_book_code a))))
      (case arg_volume a of Some v \<Rightarrow> v | None \<Rightarrow> inferred_volume)
      (arg_page a) (arg_include_empty a) (arg_volume_pad a) (arg_page_pad a) (arg_column_pad a) =
      Inr []"
  then show m: "main e a =
        (fx @ [ReadText json_path,
               Stderr (ustr ''No rows generated (all OCR entries were empty).'')],
         Returned)"
    by (simp add: main_def Let_def)
  from h have "\<not> list_ex writes_files fx"
    using ensure_json_path_effects [of e a fx "Inr json_path"] by auto
  then show "\<not> list_ex writes_files (fst (main e a))"
    by (simp add: m)
qed

theorem main_missing_or_empty_witness:
  "main example_env (example_args\<lparr>arg_json_path := Some (ustr ''missing.json'')\<rparr>) =
     ([], SysExit (ustr ''Input JSON not found: missing.json'')) \<and>
   main example_env example_args =
     ([Input (ustr ''Enter path to OCR JSON (e.g. output/giam_cuong_7_res.json): ''),
       ReadText (ustr ''output/giam_cuong_7_res.json''),
       Stderr (ustr ''No rows generated (all OCR entries were empty).'')],
      Returned)"
proof
  let ?a = "example_args\<lparr>arg_json_path := Some (ustr ''missing.json'')\<rparr>"
  have "ensure_json_path example_env ?a = ([], Inr (ustr ''missing.json'')) \<and>
        \<not> path_exists example_env (ustr ''missing.json'')"
    by (simp add: ensure_json_path_def example_args_def example_env_def ustr_def)
  then have "main example_env ?a =
      ([], SysExit (ustr ''Input JSON not found: '' @ ustr ''missing.json''))"
    using main_missing_or_empty [of example_env ?a "[]" "ustr ''missing.json''"] by blast
  then show "main example_env ?a = ([], SysExit (ustr ''Input JSON not found: missing.json''))"
    by (simp add: ustr_def)
next
  let ?p = "ustr ''output/giam_cuong_7_res.json''"
  let ?fx = "[Input (ustr ''Enter path to OCR JSON (e.g. output/giam_cuong_7_res.json): '')]"
  have path: "ensure_json_path example_env example_args = (?fx, Inr ?p)"
    by (simp add: ensure_json_path_def example_args_def example_env_def strip_def isspace_cp_def
        ustr_def)
  have ex: "path_exists example_env ?p" "read_text example_env ?p = Inr (ustr ''{}'')"
    "json_loads example_env (ustr ''{}'') = Inr (JObj blank_json)"
    by (simp_all add: example_env_def)
  have stem: "path_stem example_env ?p = ustr ''giam_cuong_7_res''"
    by (simp add: example_env_def simple_stem_def ustr_def)
  have stem': "path_stem example_env (ustr ''giam_cuong_7_res'') = ustr ''giam_cuong_7_res''"
    by (simp add: example_env_def simple_stem_def ustr_def)
  have "map_of blank_json (ustr ''input_path'') = None"
    by (simp add: blank_json_def ustr_def)
  then have "infer_book_and_volume (path_stem example_env) blank_json ?p =
               infer_from_stem (ustr ''giam_cuong_7_res'')"
    by (simp add: infer_book_and_volume_def dict_get_def stem stem')
  also have "\<dots> = Inr (ustr ''giam_cuong_7_res'', 1)"
    by (simp add: ustr_def infer_from_stem_def eval_digit digit_only_ranges_def)
  finally have inf: "infer_book_and_volume (path_stem example_env) blank_json ?p =
               Inr (ustr ''giam_cuong_7_res'', 1)" .
  have book: "or_else (arg_book_code example_args)
      (or_else (arg_book_code_arg example_args)
         (or_else (Some (ustr ''giam_cuong_7_res'')) (arg_base_book_code example_args))) =
      ustr ''giam_cuong_7_res''"
    by (simp add: or_else_def example_args_def ustr_def)
  have rows: "load_rows blank_json
      (or_else (arg_book_code example_args)
         (or_else (arg_book_code_arg example_args)
            (or_else (Some (ustr ''giam_cuong_7_res'')) (arg_base_book_code example_args))))
      (case arg_volume example_args of Some v \<Rightarrow> v | None \<Rightarrow> 1)
      (arg_page example_args) (arg_include_empty example_args) (arg_volume_pad example_args)
      (arg_page_pad example_args) (arg_column_pad example_args) = Inr []"
    unfolding book
    by (simp add: load_rows_def blank_json_def dict_get_def load_row_def example_args_def
        strip_def isspace_cp_def ustr_def)
  have "main example_env example_args =
      (?fx @ [ReadText ?p, Stderr (ustr ''No rows generated (all OCR entries were empty).'')],
       Returned)"
    using main_missing_or_empty [of example_env example_args ?fx ?p "ustr ''{}''" blank_json
        "ustr ''giam_cuong_7_res''" 1] path ex inf rows
    by blast
  then show "main example_env example_args =
     ([Input (ustr ''Enter path to OCR JSON (e.g. output/giam_cuong_7_res.json): ''),
       ReadText ?p,
       Stderr (ustr ''No rows generated (all OCR entries were empty).'')],
      Returned)"
    by simp
qed

text \<open>
  C6: for \<open>rec_texts\<close> and \<open>rec_polys\<close> lists of any lengths, \<open>load_rows\<close> returns
  rows, one for each position kept, that pair the cleaned text of the entry at that
  position with the polygon at the same position when \<open>rec_polys\<close> reaches that far, and
  with the empty string when it does not. (A polygon that is there but is an empty list or
  another false value is written as the empty string as well.)
\<close>

theorem load_rows_polygons:
  assumes "dict_get json_data (ustr ''rec_texts'') (JArr []) = JArr texts"
    and "dict_get json_data (ustr ''rec_polys'') (JArr []) = JArr polys"
  shows "\<exists>rows. load_rows json_data book_code volume page include_empty
                   volume_pad page_pad column_pad = Inr rows \<and>
                map (\<lambda>r. (Han_Char r, Image_Box r)) rows =
                  map (\<lambda>i. (cleaned_text (texts ! i),
                             if i < length polys
                             then (if truthy (polys ! i) then dumps (polys ! i) else [])
                             else []))
                    (kept_positions include_empty texts)"
  by (simp add: load_rows_lists [OF assms] comp_def)

theorem load_rows_polygons_witness:
  "\<exists>rows. load_rows example_json (ustr ''LSE_001'') 4 1 True 3 3 2 = Inr rows \<and>
          map (\<lambda>r. (Han_Char r, Image_Box r)) rows =
            [([0x5929, 0x5730], ustr ''[[1, 2], [3, 4]]''), ([], []), ([], []), ([0x738B], [])]"
proof -
  have "map (\<lambda>i. (cleaned_text (example_texts ! i),
                   if i < length example_polys
                   then (if truthy (example_polys ! i) then dumps (example_polys ! i) else [])
                   else []))
          (kept_positions True example_texts) =
        [([0x5929, 0x5730], ustr ''[[1, 2], [3, 4]]''), ([], []), ([], []), ([0x738B], [])]"
    unfolding example_kept
    by (simp add: example_texts_def example_polys_def cleaned_text_def strip_def isspace_cp_def
        eval_id)
  then show ?thesis
    using load_rows_polygons [OF example_rec_texts example_rec_polys,
        of "ustr ''LSE_001''" 4 1 True 3 3 2]
    by simp
qed

text \<open>
  C8: for a PDF that opens with \<open>page_count\<close> pages and a page index at or beyond that
  count, \<open>convert_pdf_page_to_image\<close> prints the out-of-range error and does nothing
  else, so no image is saved; and \<open>convert_pdf_to_image\<close>, given that the file exists,
  raises a \<open>ValueError\<close> and returns no image: the one about the page unless the zoom is
  not positive, which is checked first and raises its own.
\<close>

theorem page_index_out_of_range:
  "(fitz_open lib pdf_path = Inr page_count \<and> int page_count \<le> page_number \<longrightarrow>
      convert_pdf_page_to_image lib pdf_path page_number output_image_path zoom =
        [Print (ustr ''Error: Page number '' @ str_int page_number @ ustr '' is out of range.'')] \<and>
      \<not> list_ex saves_image
           (convert_pdf_page_to_image lib pdf_path page_number output_image_path zoom)) \<and>
   (os_path_exists lib pdf_path \<and> fitz_open lib pdf_path = Inr page_count \<and>
    int page_count \<le> page_number \<longrightarrow>
      convert_pdf_to_image lib pdf_path page_number zoom =
        Inl (ValueError_of (if zoom \<le> 0 then Zoom_not_positive
                            else Page_out_of_range page_count page_number)))"
  by (simp add: convert_pdf_page_to_image_def convert_pdf_to_image_def)

theorem page_index_out_of_range_witness:
  "convert_pdf_page_to_image five_pages (ustr ''data/giam_cuong.pdf'') 5 (ustr ''out.png'') 2 =
     [Print (ustr ''Error: Page number 5 is out of range.'')] \<and>
   convert_pdf_to_image five_pages (ustr ''data/giam_cuong.pdf'') 5 2 =
     Inl (ValueError_of (Page_out_of_range 5 5))"
proof -
  have opens: "fitz_open five_pages (ustr ''data/giam_cuong.pdf'') = Inr 5 \<and> int 5 \<le> 5"
    and there: "os_path_exists five_pages (ustr ''data/giam_cuong.pdf'')"
    by (simp_all add: five_pages_def)
  have "convert_pdf_page_to_image five_pages (ustr ''data/giam_cuong.pdf'') 5 (ustr ''out.png'') 2 =
          [Print (ustr ''Error: Page number '' @ str_int 5 @ ustr '' is out of range.'')]"
    and "convert_pdf_to_image five_pages (ustr ''data/giam_cuong.pdf'') 5 2 =
          Inl (ValueError_of (if (2::real) \<le> 0 then Zoom_not_positive
                              else Page_out_of_range 5 5))"
    using page_index_out_of_range [of five_pages "ustr ''data/giam_cuong.pdf''" 5 5
        "ustr ''out.png''" 2] opens there
    by blast+
  then show ?thesis
    by (simp add: str_int_def digits_of.simps ustr_def)
qed

text \<open>
  C9: whatever the JSON holds, every row \<open>load_rows\<close> returns carries the same image
  file name, made of the book code, \<open>_page_\<close>, the zero-padded page number and
  \<open>.png\<close>.
\<close>

theorem load_rows_image_name:
  assumes "load_rows json_data book_code volume page include_empty
             volume_pad page_pad column_pad = Inr rows"
  shows "list_all (\<lambda>r. Image_name r =
                     book_code @ ustr ''_page_'' @ zero_padded page_pad page @ ustr ''.png'') rows"
proof -
  define image_name where
    "image_name = book_code @ ustr ''_page_'' @ zfill (str_int page) page_pad @ ustr ''.png''"
  define body where
    "body = load_row (dict_get json_data (ustr ''rec_polys'') (JArr [])) book_code volume page
              include_empty volume_pad page_pad column_pad image_name"
  obtain texts where loop: "load_rows_loop body 1 texts [] = Inr rows"
    using assms
    by (auto simp: load_rows_def body_def image_name_def Let_def split: sum.splits)
  have rows: "rows = List.map_filter (body_result body) (List.enumerate 1 texts)"
    using load_rows_loop_result [OF loop] by simp
  have "Image_name r = image_name" if "r \<in> set rows" for r
  proof -
    from that obtain q where "body_result body q = Some r"
      unfolding rows by (auto simp: set_map_filter_iff)
    then obtain i t where "body i t = Inr (Some r)"
      by (cases q) (auto simp: body_result_def split: sum.splits)
    then show ?thesis unfolding body_def by (rule load_row_fields(2))
  qed
  then show ?thesis
    by (simp add: list_all_iff image_name_def zfill_str_int)
qed

theorem load_rows_image_name_witness:
  "Image_name \<lparr>ID = ustr ''LSE_001.004.001.01'', Image_name = ustr ''LSE_001_page_001.png'',
                Han_Char = [0x5929, 0x5730], Image_Box = ustr ''[[1, 2], [3, 4]]''\<rparr> =
     ustr ''LSE_001'' @ ustr ''_page_'' @ zero_padded 3 1 @ ustr ''.png'' \<and>
   zero_padded 3 1 = ustr ''001''"
proof -
  have "zero_padded 3 1 = ustr ''001''"
    by (simp add: zero_padded_def eval_id)
  then show ?thesis
    using load_rows_image_name [OF example_rows] by simp
qed

text \<open>
  C10: a stem that is one segment of decimal digits denoting \<open>n\<close> has an empty
  underscore-joined prefix, and the book code returned is the stem itself, with the volume
  \<open>n\<close>.
\<close>

theorem infer_from_stem_digits_only:
  assumes "d \<noteq> []" and "digits_value 0 d = Some n"
  shows "split_on 0x5F d = [d] \<and>
         join (ustr ''_'') (butlast (split_on 0x5F d)) = [] \<and>
         infer_from_stem d = Inr (d, int n)"
proof -
  have d: "isdigit d" "0x5F \<notin> set d" "py_int d = Inr (int n)"
    using assms literal_isdigit py_int_literal by blast+
  then show ?thesis
    by (simp add: split_on_no_sep infer_single)
qed

theorem infer_from_stem_digits_only_witness:
  "split_on 0x5F (ustr ''7'') = [ustr ''7''] \<and>
   join (ustr ''_'') (butlast (split_on 0x5F (ustr ''7''))) = [] \<and>
   infer_from_stem (ustr ''7'') = Inr (ustr ''7'', 7)"
proof -
  have "ustr ''7'' \<noteq> []" and "digits_value 0 (ustr ''7'') = Some 7"
    by (simp_all add: ustr_def decimal_value_def decimal_zeros_def)
  from infer_from_stem_digits_only [OF this] show ?thesis by simp
qed

text \<open>
  A last segment that \<open>isdigit\<close> accepts and \<open>int\<close> refuses, such as the superscript
  two, makes the inference raise \<open>ValueError\<close> instead of returning.
\<close>

theorem infer_from_stem_superscript:
  "isdigit [0xB2] \<and> infer_from_stem (ustr ''a_'' @ [0xB2]) = Inl ValueError"
  by (simp add: infer_from_stem_def ustr_def eval_digit digit_only_ranges_def)

end
